theory Spec2Isabelle
  imports Main "HOL-Library.Word"
begin

section \<open>JavaScript values and arrays\<close>

text \<open>
  The program (\<^verbatim>\<open>src/main.ts\<close>) is TypeScript; at run time it is JavaScript.
  A \<^verbatim>\<open>CellPool\<close> is declared as \<^verbatim>\<open>boolean[]\<close>.  A JavaScript array is a
  length together with the elements that are present: a slot that was never written is
  a hole and reads as \<^verbatim>\<open>undefined\<close>, as does every index outside \<open>[0, length)\<close>.
  The model keeps both: a slot is \<open>Some b\<close> for a boolean and \<open>None\<close> for a hole.
  Only the literals \<^verbatim>\<open>true\<close> and \<^verbatim>\<open>false\<close> and the result of a comparison are
  ever stored, so no other value occurs in a slot.
\<close>

type_synonym CellPool = "bool option list"

text \<open>\<^verbatim>\<open>cells[i]\<close> for an integer \<open>i\<close>: \<open>None\<close> stands for \<^verbatim>\<open>undefined\<close>.\<close>

definition js_get :: "'a option list \<Rightarrow> int \<Rightarrow> 'a option" where
  "js_get xs i = (if 0 \<le> i \<and> i < int (length xs) then xs ! nat i else None)"

text \<open>
  \<^verbatim>\<open>cells[i] = v\<close> for a loop counter \<open>i\<close>: inside the array the slot is overwritten;
  at or beyond the length JavaScript extends the array, leaving holes in between.
\<close>

definition js_set :: "'a option list \<Rightarrow> nat \<Rightarrow> 'a \<Rightarrow> 'a option list" where
  "js_set xs i v =
     (if i < length xs then xs[i := Some v]
      else xs @ replicate (i - length xs) None @ [Some v])"

text \<open>
  The only numbers the simulation computes with are neighbour counts: sums of
  \<^verbatim>\<open>Number(x)\<close> for \<open>x\<close> a boolean or \<^verbatim>\<open>undefined\<close>.  These are small
  non-negative integers, exact in a double, or \<^verbatim>\<open>NaN\<close>.
\<close>

datatype number = Num nat | NaN

fun js_Number :: "bool option \<Rightarrow> number" where
  "js_Number (Some True) = Num 1"
| "js_Number (Some False) = Num 0"
| "js_Number None = NaN"

fun js_add :: "number \<Rightarrow> number \<Rightarrow> number" where
  "js_add (Num a) (Num b) = Num (a + b)"
| "js_add _ _ = NaN"

text \<open>\<^verbatim>\<open>n < k\<close> and \<^verbatim>\<open>n > k\<close>: every comparison with \<^verbatim>\<open>NaN\<close> is false.\<close>

fun js_lt :: "number \<Rightarrow> nat \<Rightarrow> bool" where
  "js_lt (Num a) k = (a < k)"
| "js_lt NaN k = False"

fun js_gt :: "number \<Rightarrow> nat \<Rightarrow> bool" where
  "js_gt (Num a) k = (a > k)"
| "js_gt NaN k = False"

text \<open>Truthiness of an array read: \<^verbatim>\<open>undefined\<close> is falsy.\<close>

fun truthy :: "bool option \<Rightarrow> bool" where
  "truthy (Some b) = b"
| "truthy None = False"

section \<open>Constants and state\<close>

definition CELLS_PER_ROW :: nat where
  "CELLS_PER_ROW = 100"

definition BUFFER_SIZE :: nat where
  "BUFFER_SIZE = CELLS_PER_ROW * CELLS_PER_ROW"

text \<open>
  \<^verbatim>\<open>CELL_COLORS = [255, 0]\<close>: entry 0 is the colour of a dead cell, entry 1 of a live
  one.  The pixel store is a \<^verbatim>\<open>Uint8ClampedArray\<close>, a fixed-length array of bytes.
\<close>

definition CELL_COLORS :: "8 word list" where
  "CELL_COLORS = [255, 0]"

text \<open>
  The record \<^verbatim>\<open>GameState\<close>.  The field \<^verbatim>\<open>next\<close> is called \<open>next_pool\<close> here
  (\<open>next\<close> is reserved in Isabelle); \<^verbatim>\<open>pixels\<close> is the \<^verbatim>\<open>data\<close> array of the
  \<^verbatim>\<open>ImageData\<close>; \<^verbatim>\<open>lastLoop\<close>, a wall-clock reading used only for the
  performance report, is left out.

  Every assignment to a buffer field in the source stores a freshly allocated array
  (\<^verbatim>\<open>slice\<close>, \<^verbatim>\<open>map\<close>, \<^verbatim>\<open>Array.from\<close>), so the four buffers never share storage
  and passing them by value is exact.
\<close>

record GameState =
  isRunning :: bool
  isMousePressed :: bool
  bitsChanged :: nat
  previous :: CellPool
  current :: CellPool
  next_pool :: CellPool
  changed :: CellPool
  pixels :: "8 word list"

definition createBuffer :: "nat \<Rightarrow> bool \<Rightarrow> CellPool" where
  "createBuffer sz defaultValue = replicate sz (Some defaultValue)"

definition cloneBuffer :: "CellPool \<Rightarrow> CellPool" where
  "cloneBuffer buffer = buffer"

text \<open>The initial \<^verbatim>\<open>state\<close>; a new \<^verbatim>\<open>ImageData\<close> is all zero bytes.\<close>

definition state0 :: GameState where
  "state0 =
     \<lparr> isRunning = False, isMousePressed = False, bitsChanged = 0,
       previous = createBuffer BUFFER_SIZE False,
       current = createBuffer BUFFER_SIZE False,
       next_pool = createBuffer BUFFER_SIZE False,
       changed = createBuffer BUFFER_SIZE False,
       pixels = replicate (CELLS_PER_ROW * CELLS_PER_ROW * 4) 0 \<rparr>"

section \<open>Diff engine\<close>

text \<open>
  \<^verbatim>\<open>a.map((cell, index) => cell !== b[index])\<close>.  \<^verbatim>\<open>map\<close> keeps the length of
  \<open>a\<close>, skips its holes, and calls the function on every present element; the strict
  inequality compares a boolean with a boolean or with \<^verbatim>\<open>undefined\<close>.
\<close>

definition diffBuffers :: "CellPool \<Rightarrow> CellPool \<Rightarrow> CellPool" where
  "diffBuffers a b =
     map (\<lambda>index. case a ! index of
                     None \<Rightarrow> None
                   | Some cell \<Rightarrow> Some (Some cell \<noteq> js_get b (int index)))
         [0 ..< length a]"

section \<open>Neighbour counter\<close>

text \<open>
  The functions below take the row length as a parameter \<open>side\<close>; the source fixes it
  to \<open>CELLS_PER_ROW\<close>, so the program's \<^verbatim>\<open>findNeighbors(cells, index)\<close> is
  \<open>findNeighbors CELLS_PER_ROW cells index\<close>, and likewise for \<^verbatim>\<open>tick\<close> and
  \<^verbatim>\<open>render\<close>.

  The loop over the eight neighbour indices adds \<^verbatim>\<open>Number(cells[neighbor])\<close> to the
  count.
\<close>

primrec findNeighbors_loop :: "CellPool \<Rightarrow> int list \<Rightarrow> number \<Rightarrow> number" where
  "findNeighbors_loop cells [] count = count"
| "findNeighbors_loop cells (neighbor # rest) count =
     findNeighbors_loop cells rest (js_add count (js_Number (js_get cells neighbor)))"

definition findNeighbors :: "nat \<Rightarrow> CellPool \<Rightarrow> int \<Rightarrow> number" where
  "findNeighbors side cells index =
     (let t = index - int side;
          b = index + int side;
          l = index - 1;
          r = index + 1;
          tl = t - 1;
          tr = t + 1;
          bl = b - 1;
          br = b + 1;
          neighbors = [t, b, l, r, tl, tr, bl, br]
      in findNeighbors_loop cells neighbors (Num 0))"

section \<open>Transition engine and tick\<close>

text \<open>The body of the loop in \<^verbatim>\<open>tick\<close>: two independent conditionals on \<open>next[i]\<close>.\<close>

definition tick_body :: "nat \<Rightarrow> CellPool \<Rightarrow> nat \<Rightarrow> CellPool \<Rightarrow> CellPool" where
  "tick_body side cur i nxt =
     (let neighbors = findNeighbors side cur (int i);
          alive = js_get cur (int i);
          nxt1 = (if truthy alive \<and> (js_lt neighbors 2 \<or> js_gt neighbors 3)
                  then js_set nxt i False else nxt);
          nxt2 = (if \<not> truthy alive \<and> neighbors = Num 3
                  then js_set nxt1 i True else nxt1)
      in nxt2)"

function tick_loop :: "nat \<Rightarrow> CellPool \<Rightarrow> nat \<Rightarrow> CellPool \<Rightarrow> CellPool" where
  "tick_loop side cur i nxt =
     (if i < length cur then tick_loop side cur (Suc i) (tick_body side cur i nxt)
      else nxt)"
  by pat_completeness auto
termination
  by (relation "measure (\<lambda>(side, cur, i, nxt). length cur - i)") auto

declare tick_loop.simps [simp del]

definition tick :: "nat \<Rightarrow> GameState \<Rightarrow> GameState" where
  "tick side s =
     (let s1 = s\<lparr>previous := cloneBuffer (current s)\<rparr>
      in if \<not> isRunning s1 then s1
         else let s2 = s1\<lparr>next_pool := tick_loop side (current s1) 0 (next_pool s1)\<rparr>
              in s2\<lparr>current := cloneBuffer (next_pool s2)\<rparr>)"

section \<open>Render encoder\<close>

text \<open>
  A store into a \<^verbatim>\<open>Uint8ClampedArray\<close> outside its length is ignored.  The colour is
  \<^verbatim>\<open>CELL_COLORS[Number(state.current[i])]\<close>; an index that is not 0 or 1 gives
  \<^verbatim>\<open>undefined\<close>, which the byte array stores as 0.
\<close>

definition px_set :: "8 word list \<Rightarrow> nat \<Rightarrow> 8 word \<Rightarrow> 8 word list" where
  "px_set d i v = (if i < length d then d[i := v] else d)"

fun cell_color :: "number \<Rightarrow> 8 word" where
  "cell_color (Num n) = (if n < length CELL_COLORS then CELL_COLORS ! n else 0)"
| "cell_color NaN = 0"

text \<open>
  The body of the loop in \<^verbatim>\<open>render\<close>, on the pair of the pixel bytes and
  \<^verbatim>\<open>bitsChanged\<close>.  With \<open>side = 0\<close> the coordinates would be \<^verbatim>\<open>NaN\<close> and the
  four stores would do nothing.
\<close>

definition render_body ::
  "nat \<Rightarrow> CellPool \<Rightarrow> CellPool \<Rightarrow> nat \<Rightarrow> 8 word list \<times> nat \<Rightarrow> 8 word list \<times> nat" where
  "render_body side cur chg i pb =
     (if \<not> truthy (js_get chg (int i)) then pb
      else
        let bits = snd pb + 1;
            x = i mod side;
            y = i div side;
            index = (y * side + x) * 4;
            color = cell_color (js_Number (js_get cur (int i)));
            d0 = fst pb;
            d1 = px_set d0 index color;
            d2 = px_set d1 (index + 1) color;
            d3 = px_set d2 (index + 2) color;
            d4 = px_set d3 (index + 3) 255
        in if side = 0 then (d0, bits) else (d4, bits))"

function render_loop ::
  "nat \<Rightarrow> CellPool \<Rightarrow> CellPool \<Rightarrow> nat \<Rightarrow> 8 word list \<times> nat \<Rightarrow> 8 word list \<times> nat" where
  "render_loop side cur chg i pb =
     (if i < length cur then render_loop side cur chg (Suc i) (render_body side cur chg i pb)
      else pb)"
  by pat_completeness auto
termination
  by (relation "measure (\<lambda>(side, cur, chg, i, pb). length cur - i)") auto

declare render_loop.simps [simp del]


section \<open>Controls\<close>

text \<open>The toggle button flips \<^verbatim>\<open>isRunning\<close>.\<close>

definition toggle :: "GameState \<Rightarrow> GameState" where
  "toggle s = s\<lparr>isRunning := \<not> isRunning s\<rparr>"


text \<open>
  The random button: \<^verbatim>\<open>state.current[i] = Math.random() > 0.5\<close> for every index of
  \<^verbatim>\<open>current\<close>.  The outcome of the \<open>i\<close>-th comparison is supplied by \<open>rnd i\<close>.
\<close>

function randomize_loop :: "(nat \<Rightarrow> bool) \<Rightarrow> nat \<Rightarrow> CellPool \<Rightarrow> CellPool" where
  "randomize_loop rnd i cur =
     (if i < length cur then randomize_loop rnd (Suc i) (js_set cur i (rnd i)) else cur)"
  by pat_completeness auto
termination
  by (relation "measure (\<lambda>(rnd, i, cur). length cur - i)") (auto simp: js_set_def)

declare randomize_loop.simps [simp del]

definition randomize :: "(nat \<Rightarrow> bool) \<Rightarrow> GameState \<Rightarrow> GameState" where
  "randomize rnd s = s\<lparr>current := randomize_loop rnd 0 (current s)\<rparr>"

text \<open>
  Mouse drawing.  \<^verbatim>\<open>draw\<close> returns at once unless the mouse is pressed; otherwise
  it stores \<^verbatim>\<open>true\<close> into \<^verbatim>\<open>state.current[index]\<close> when \<^verbatim>\<open>event.buttons\<close> is 1
  (left button) and \<^verbatim>\<open>false\<close> when it is 2 (right button).  The index is computed
  from the pointer position with floating-point arithmetic; here it is a parameter, a
  non-negative integer.
\<close>

definition draw :: "nat \<Rightarrow> nat \<Rightarrow> GameState \<Rightarrow> GameState" where
  "draw index buttons s =
     (if \<not> isMousePressed s then s
      else
        let isLeftMouseButton = (buttons = 1);
            isRightMouseButton = (buttons = 2);
            s1 = (if isLeftMouseButton then s\<lparr>current := js_set (current s) index True\<rparr>
                  else s);
            s2 = (if isRightMouseButton then s1\<lparr>current := js_set (current s1) index False\<rparr>
                  else s1)
        in s2)"

definition onmousedown :: "nat \<Rightarrow> nat \<Rightarrow> GameState \<Rightarrow> GameState" where
  "onmousedown index buttons s = draw index buttons (s\<lparr>isMousePressed := True\<rparr>)"

definition onmouseup :: "nat \<Rightarrow> nat \<Rightarrow> GameState \<Rightarrow> GameState" where
  "onmouseup index buttons s = draw index buttons (s\<lparr>isMousePressed := False\<rparr>)"

definition onmousemove :: "nat \<Rightarrow> nat \<Rightarrow> GameState \<Rightarrow> GameState" where
  "onmousemove index buttons s = draw index buttons s"

section \<open>Some states of the program\<close>

text \<open>
  The initial board after one drag with the left button over the four cells of a 2 by 2
  block (rows 50 and 51, columns 50 and 51) and a press of the toggle button.  Drawing
  stores into \<open>current\<close> only, so \<open>next\<close> is still the all-dead buffer of the initial
  state.
\<close>

definition painted_block :: GameState where
  "painted_block =
     toggle (onmouseup 5150 0 (onmousemove 5150 1 (onmousemove 5151 1
       (onmousemove 5051 1 (onmousedown 5050 1 state0)))))"

text \<open>The same board with \<open>next\<close> holding the block as well.\<close>

definition synced_block :: GameState where
  "synced_block = painted_block\<lparr>next_pool := current painted_block\<rparr>"

text \<open>The block board paused again: the toggle button pressed a second time.\<close>

definition paused_block :: GameState where
  "paused_block = toggle painted_block"


section \<open>The states the program reaches\<close>


section \<open>Array reads after array writes\<close>

lemma length_js_set: "length (js_set xs i v) = max (length xs) (Suc i)"
  by (simp add: js_set_def)

lemma js_get_js_set:
  "js_get (js_set xs i v) j = (if j = int i then Some v else js_get xs j)"
proof (cases "i < length xs")
  case True
  then show ?thesis
    by (auto simp: js_set_def js_get_def nat_eq_iff)
next
  case False
  then show ?thesis
    by (auto simp: js_set_def js_get_def nth_append nat_less_iff nat_eq_iff not_less)
qed

lemma js_get_createBuffer:
  "js_get (createBuffer n d) j = (if 0 \<le> j \<and> j < int n then Some d else None)"
  by (simp add: js_get_def createBuffer_def nat_less_iff)

lemma js_get_nat: "i < length xs \<Longrightarrow> js_get xs (int i) = xs ! i"
  by (simp add: js_get_def)

section \<open>The transition loop, cell by cell\<close>

text \<open>
  One pass of the loop body changes at most slot \<open>i\<close> of \<open>next\<close>; reads are through
  \<open>js_get\<close>, so the statement also covers a store that extends the array.
\<close>

lemma js_get_tick_body:
  "js_get (tick_body side cur i nxt) j =
     (if j = int i then
        (if truthy (js_get cur (int i)) \<and>
            (js_lt (findNeighbors side cur (int i)) 2 \<or> js_gt (findNeighbors side cur (int i)) 3)
         then Some False
         else if \<not> truthy (js_get cur (int i)) \<and> findNeighbors side cur (int i) = Num 3
         then Some True
         else js_get nxt j)
      else js_get nxt j)"
  by (auto simp: tick_body_def Let_def js_get_js_set)

text \<open>
  The loop started at \<open>k\<close> decides the slots from \<open>k\<close> up to the length of
  \<open>current\<close> and leaves every other slot of \<open>next\<close> as it was.
\<close>

lemma js_get_tick_loop:
  "js_get (tick_loop side cur k nxt) j =
     (if int k \<le> j \<and> j < int (length cur) then
        (if truthy (js_get cur j) \<and>
            (js_lt (findNeighbors side cur j) 2 \<or> js_gt (findNeighbors side cur j) 3)
         then Some False
         else if \<not> truthy (js_get cur j) \<and> findNeighbors side cur j = Num 3
         then Some True
         else js_get nxt j)
      else js_get nxt j)"
proof (induction side cur k nxt rule: tick_loop.induct)
  case (1 side cur i nxt)
  show ?case
  proof (cases "i < length cur")
    case True
    have "js_get (tick_loop side cur i nxt) j =
          js_get (tick_loop side cur (Suc i) (tick_body side cur i nxt)) j"
      using True by (subst tick_loop.simps) simp
    also have "\<dots> = (if int (Suc i) \<le> j \<and> j < int (length cur) then
        (if truthy (js_get cur j) \<and>
            (js_lt (findNeighbors side cur j) 2 \<or> js_gt (findNeighbors side cur j) 3)
         then Some False
         else if \<not> truthy (js_get cur j) \<and> findNeighbors side cur j = Num 3
         then Some True
         else js_get (tick_body side cur i nxt) j)
      else js_get (tick_body side cur i nxt) j)"
      using "1.IH" [OF True] .
    finally show ?thesis
      using True by (auto simp: js_get_tick_body)
  next
    case False
    then show ?thesis
      by (subst tick_loop.simps) auto
  qed
qed

text \<open>
  C2.  For every index \<open>i\<close> below the length of \<open>current\<close>, with \<open>alive = current[i]\<close>
  and \<open>n\<close> the neighbour count of \<open>i\<close> in \<open>current\<close>: after the transition loop,
  \<open>next[i]\<close> is \<open>false\<close> if \<open>alive\<close> and (\<open>n < 2\<close> or \<open>n > 3\<close>); it is \<open>true\<close> if not
  \<open>alive\<close> and \<open>n = 3\<close>; in every other case it is the value \<open>next[i]\<close> had before
  the loop.
\<close>

theorem tick_loop_cell:
  assumes "i < length cur"
  shows "js_get (tick_loop side cur 0 nxt) (int i) =
     (let alive = truthy (js_get cur (int i));
          n = findNeighbors side cur (int i)
      in if alive \<and> (js_lt n 2 \<or> js_gt n 3) then Some False
         else if \<not> alive \<and> n = Num 3 then Some True
         else js_get nxt (int i))"
  using assms by (simp add: js_get_tick_loop Let_def)

text \<open>
  An instance on a 3 by 3 board whose top row is alive: the centre cell, dead with
  three live neighbours, is born.
\<close>

theorem tick_loop_cell_witness:
  "(4::nat) < length [Some True, Some True, Some True, Some False, Some False,
                      Some False, Some False, Some False, Some False] \<and>
   js_get (tick_loop 3 [Some True, Some True, Some True, Some False, Some False,
                        Some False, Some False, Some False, Some False] 0
                       (replicate 9 (Some False))) (int 4) = Some True"
  using tick_loop_cell [of 4 "[Some True, Some True, Some True, Some False, Some False,
                      Some False, Some False, Some False, Some False]" 3 "replicate 9 (Some False)"]
  by (simp add: findNeighbors_def js_get_def Let_def)

section \<open>The diff mask\<close>

lemma length_diffBuffers: "length (diffBuffers a b) = length a"
  by (simp add: diffBuffers_def)

text \<open>
  C7.  For buffers \<open>a\<close> and \<open>b\<close> of equal length and every index \<open>i\<close> of them, the mask
  \<open>diff(a, b)\<close> has the length of \<open>a\<close> and holds at \<open>i\<close> the truth value of
  \<open>a[i] \<noteq> b[i]\<close>.  The function is total and has no error result.
\<close>

theorem diffBuffers_cell:
  assumes "length a = length b" and "i < length a"
    and "a ! i = Some x" and "b ! i = Some y"
  shows "length (diffBuffers a b) = length a \<and> diffBuffers a b ! i = Some (x \<noteq> y)"
  using assms by (simp add: diffBuffers_def js_get_def)

theorem diffBuffers_cell_witness:
  "length [Some True, Some False] = length [Some True, Some True] \<and>
   (1::nat) < length [Some True, Some False] \<and>
   [Some True, Some False] ! 1 = Some False \<and> [Some True, Some True] ! 1 = Some True \<and>
   length (diffBuffers [Some True, Some False] [Some True, Some True]) =
     length [Some True, Some False] \<and>
   diffBuffers [Some True, Some False] [Some True, Some True] ! 1 = Some (False \<noteq> True)"
  using diffBuffers_cell [of "[Some True, Some False]" "[Some True, Some True]" 1 False True]
  by simp

section \<open>Randomize\<close>

text \<open>The loop overwrites every slot of \<open>current\<close>, in order, and keeps its length.\<close>

lemma randomize_loop_eq:
  "i \<le> length cur \<Longrightarrow>
   randomize_loop rnd i cur = take i cur @ map (\<lambda>k. Some (rnd k)) [i ..< length cur]"
proof (induction rnd i cur rule: randomize_loop.induct)
  case (1 rnd i cur)
  show ?case
  proof (cases "i < length cur")
    case True
    have set: "js_set cur i (rnd i) = cur[i := Some (rnd i)]"
      using True by (simp add: js_set_def)
    have "randomize_loop rnd i cur = randomize_loop rnd (Suc i) (cur[i := Some (rnd i)])"
      using True set by (subst randomize_loop.simps) simp
    also have "\<dots> = take (Suc i) (cur[i := Some (rnd i)]) @
                      map (\<lambda>k. Some (rnd k)) [Suc i ..< length cur]"
      using "1.IH" [OF True] True set by simp
    also have "take (Suc i) (cur[i := Some (rnd i)]) = take i cur @ [Some (rnd i)]"
      using True by (simp add: take_Suc_conv_app_nth)
    finally show ?thesis
      using True by (simp add: upt_conv_Cons)
  next
    case False
    with "1.prems" have "i = length cur" by simp
    then show ?thesis
      by (subst randomize_loop.simps) simp
  qed
qed


text \<open>
  C8.  Randomize writes only \<open>current\<close>: the state after it is the state before with
  \<open>current\<close> replaced by the drawn values, and \<open>next\<close>, \<open>previous\<close> and \<open>changed\<close> are
  what they were before the call.
\<close>

theorem randomize_frame:
  "randomize rnd s = s\<lparr>current := map (\<lambda>i. Some (rnd i)) [0 ..< length (current s)]\<rparr> \<and>
   next_pool (randomize rnd s) = next_pool s \<and>
   previous (randomize rnd s) = previous s \<and>
   changed (randomize rnd s) = changed s"
  by (simp add: randomize_def randomize_loop_eq)

section \<open>The render loop, byte by byte\<close>

lemma length_px_set: "length (px_set d i v) = length d"
  by (simp add: px_set_def)

lemma nth_px_set: "px_set d i v ! p = (if p = i \<and> i < length d then v else d ! p)"
  by (simp add: px_set_def)

lemma length_render_body: "length (fst (render_body side cur chg i pb)) = length (fst pb)"
  by (simp add: render_body_def Let_def length_px_set)

lemma length_render_loop: "length (fst (render_loop side cur chg k pb)) = length (fst pb)"
proof (induction side cur chg k pb rule: render_loop.induct)
  case (1 side cur chg i pb)
  show ?case
  proof (cases "i < length cur")
    case True
    then show ?thesis
      using "1.IH" [OF True] by (subst render_loop.simps) (simp add: length_render_body)
  next
    case False
    then show ?thesis by (subst render_loop.simps) simp
  qed
qed

lemma group_index: "(i div side * side + i mod side) * 4 = 4 * (i::nat)"
  by simp

lemma in_group: "p div 4 = i \<longleftrightarrow> p = 4 * i \<or> p = 4 * i + 1 \<or> p = 4 * i + 2 \<or> p = 4 * (i::nat) + 3"
  by presburger

text \<open>For a positive row length the pixel offset of cell \<open>i\<close> is \<open>4 * i\<close>.\<close>

lemma render_body_changed:
  assumes "0 < side" and "truthy (js_get chg (int i))"
  shows "fst (render_body side cur chg i pb) =
     px_set (px_set (px_set (px_set (fst pb) (4 * i) (cell_color (js_Number (js_get cur (int i)))))
        (4 * i + 1) (cell_color (js_Number (js_get cur (int i)))))
        (4 * i + 2) (cell_color (js_Number (js_get cur (int i)))))
        (4 * i + 3) 255"
proof -
  have idx: "(i div side * side + i mod side) * 4 = 4 * i"
    by (rule group_index)
  show ?thesis
    unfolding render_body_def Let_def idx using assms by simp
qed

lemma render_body_nth:
  assumes "0 < side"
  shows "fst (render_body side cur chg i pb) ! p =
     (if truthy (js_get chg (int i)) \<and> p div 4 = i \<and> p < length (fst pb)
      then (if p mod 4 = 3 then 255 else cell_color (js_Number (js_get cur (int i))))
      else fst pb ! p)"
proof (cases "truthy (js_get chg (int i))")
  case False
  then show ?thesis by (simp add: render_body_def)
next
  case True
  note eq = render_body_changed [OF assms True, of cur pb]
  consider (a) "p = 4 * i" | (b) "p = 4 * i + 1" | (c) "p = 4 * i + 2" | (d) "p = 4 * i + 3"
    | (e) "p div 4 \<noteq> i"
    using in_group [of p i] by blast
  then show ?thesis
  proof cases
    case a
    then have "p div 4 = i" and "p mod 4 = 0" by presburger+
    with a show ?thesis using True by (simp add: eq nth_px_set length_px_set)
  next
    case b
    then have "p div 4 = i" and "p mod 4 = 1" by presburger+
    with b show ?thesis using True by (simp add: eq nth_px_set length_px_set)
  next
    case c
    then have "p div 4 = i" and "p mod 4 = 2" by presburger+
    with c show ?thesis using True by (simp add: eq nth_px_set length_px_set)
  next
    case d
    then have "p div 4 = i" and "p mod 4 = 3" by presburger+
    with d show ?thesis using True by (simp add: eq nth_px_set length_px_set)
  next
    case e
    then have "p \<noteq> 4 * i" "p \<noteq> 4 * i + 1" "p \<noteq> 4 * i + 2" "p \<noteq> 4 * i + 3"
      using in_group [of p i] by blast+
    then show ?thesis using True e by (simp add: eq nth_px_set length_px_set)
  qed
qed


text \<open>
  Every byte after the loop: byte \<open>p\<close> belongs to cell \<open>p div 4\<close>; it is rewritten when
  that cell is below the length of \<open>current\<close> and its mask entry is true, and kept
  otherwise.
\<close>

lemma render_loop_nth:
  assumes "0 < side"
  shows "fst (render_loop side cur chg k pb) ! p =
     (if k \<le> p div 4 \<and> p div 4 < length cur \<and> truthy (js_get chg (int (p div 4))) \<and>
         p < length (fst pb)
      then (if p mod 4 = 3 then 255 else cell_color (js_Number (js_get cur (int (p div 4)))))
      else fst pb ! p)"
  using assms
proof (induction side cur chg k pb rule: render_loop.induct)
  case (1 side cur chg i pb)
  show ?case
  proof (cases "i < length cur")
    case True
    have "fst (render_loop side cur chg i pb) ! p =
          fst (render_loop side cur chg (Suc i) (render_body side cur chg i pb)) ! p"
      using True by (subst render_loop.simps) simp
    also have "\<dots> =
      (if Suc i \<le> p div 4 \<and> p div 4 < length cur \<and> truthy (js_get chg (int (p div 4))) \<and>
          p < length (fst pb)
       then (if p mod 4 = 3 then 255 else cell_color (js_Number (js_get cur (int (p div 4)))))
       else fst (render_body side cur chg i pb) ! p)"
      using "1.IH" [OF True "1.prems"] by (simp add: length_render_body)
    finally have step: "fst (render_loop side cur chg i pb) ! p =
      (if Suc i \<le> p div 4 \<and> p div 4 < length cur \<and> truthy (js_get chg (int (p div 4))) \<and>
          p < length (fst pb)
       then (if p mod 4 = 3 then 255 else cell_color (js_Number (js_get cur (int (p div 4)))))
       else fst (render_body side cur chg i pb) ! p)" .
    show ?thesis
    proof (cases "p div 4 = i")
      case same: True
      then show ?thesis
        using True by (simp add: step render_body_nth [OF "1.prems"])
    next
      case other: False
      then have "Suc i \<le> p div 4 \<longleftrightarrow> i \<le> p div 4" by arith
      then show ?thesis
        using True other by (simp add: step render_body_nth [OF "1.prems"])
    qed
  next
    case False
    then show ?thesis by (subst render_loop.simps) auto
  qed
qed

lemma cell_color_Some: "cell_color (js_Number (Some b)) = (if b then 0 else 255)"
  by (cases b) (simp_all add: CELL_COLORS_def)

text \<open>
  C9.  For a current buffer, a mask and a pixel buffer that has the four bytes of cell
  \<open>i\<close>: when \<open>mask[i]\<close> is true the loop leaves at byte offset \<open>4 * i\<close> the group
  \<open>(c, c, c, 255)\<close>, where \<open>c\<close> is 255 (white) if \<open>current[i]\<close> is false and 0 (black)
  if it is true; when \<open>mask[i]\<close> is not true the four bytes are unchanged.
\<close>

theorem render_loop_group:
  assumes "0 < side" and "i < length cur" and "4 * i + 3 < length px" and "cur ! i = Some b"
  shows "let px' = fst (render_loop side cur chg 0 (px, bits));
             c = (if b then 0 else 255)
         in if truthy (js_get chg (int i))
            then px' ! (4 * i) = c \<and> px' ! (4 * i + 1) = c \<and> px' ! (4 * i + 2) = c \<and>
                 px' ! (4 * i + 3) = 255
            else px' ! (4 * i) = px ! (4 * i) \<and> px' ! (4 * i + 1) = px ! (4 * i + 1) \<and>
                 px' ! (4 * i + 2) = px ! (4 * i + 2) \<and> px' ! (4 * i + 3) = px ! (4 * i + 3)"
proof -
  have d: "(4 * i) div 4 = i" "(4 * i + 1) div 4 = i" "(4 * i + 2) div 4 = i" "(4 * i + 3) div 4 = i"
    by presburger+
  have m: "(4 * i) mod 4 = 0" "(4 * i + 1) mod 4 = 1" "(4 * i + 2) mod 4 = 2" "(4 * i + 3) mod 4 = 3"
    by presburger+
  have c: "cell_color (js_Number (js_get cur (int i))) = (if b then 0 else 255)"
    using assms(2,4) by (simp add: js_get_nat cell_color_Some)
  show ?thesis
    unfolding Let_def render_loop_nth [OF assms(1)] d m
    using assms(2,3) c by simp
qed

theorem render_loop_group_witness:
  "(0::nat) < 2 \<and> (1::nat) < length [Some False, Some True] \<and>
   4 * 1 + 3 < length (replicate 8 (7::8 word)) \<and> [Some False, Some True] ! 1 = Some True \<and>
   fst (render_loop 2 [Some False, Some True] [Some False, Some True] 0
          (replicate 8 7, 0)) ! 4 = 0 \<and>
   fst (render_loop 2 [Some False, Some True] [Some False, Some True] 0
          (replicate 8 7, 0)) ! 5 = 0 \<and>
   fst (render_loop 2 [Some False, Some True] [Some False, Some True] 0
          (replicate 8 7, 0)) ! 6 = 0 \<and>
   fst (render_loop 2 [Some False, Some True] [Some False, Some True] 0
          (replicate 8 7, 0)) ! 7 = 255"
  using render_loop_group [of 2 1 "[Some False, Some True]" "replicate 8 7" True
                              "[Some False, Some True]" 0]
  by (simp add: js_get_def Let_def)

section \<open>The neighbour count\<close>

text \<open>
  Once the running count is \<^verbatim>\<open>NaN\<close> it stays so; from a number, the loop returns
  that number plus the live cells among the positions, unless one of the positions
  reads \<^verbatim>\<open>undefined\<close>.
\<close>

lemma findNeighbors_loop_NaN: "findNeighbors_loop cells ns NaN = NaN"
  by (induction ns) simp_all

lemma findNeighbors_loop_Num:
  "findNeighbors_loop cells ns (Num c) =
     (if list_all (\<lambda>n. js_get cells n \<noteq> None) ns
      then Num (c + length (filter (\<lambda>n. js_get cells n = Some True) ns))
      else NaN)"
proof (induction ns arbitrary: c)
  case Nil
  then show ?case by simp
next
  case (Cons n ns)
  show ?case
  proof (cases "js_get cells n")
    case None
    then show ?thesis by (simp add: findNeighbors_loop_NaN)
  next
    case (Some b)
    then show ?thesis by (cases b) (auto simp: Cons.IH)
  qed
qed

text \<open>The result is \<^verbatim>\<open>NaN\<close> or an integer from 0 to 8.\<close>

lemma findNeighbors_range:
  "findNeighbors side cells index = NaN \<or> (\<exists>n\<le>8. findNeighbors side cells index = Num n)"
proof -
  let ?ns = "[index - int side, index + int side, index - 1, index + 1,
              index - int side - 1, index - int side + 1,
              index + int side - 1, index + int side + 1]"
  have "length (filter (\<lambda>n. js_get cells n = Some True) ?ns) \<le> length ?ns"
    by (rule length_filter_le)
  then have "length (filter (\<lambda>n. js_get cells n = Some True) ?ns) \<le> 8"
    by simp
  then show ?thesis
    unfolding findNeighbors_def Let_def findNeighbors_loop_Num
    by (metis add_0)
qed

text \<open>
  For an index up to \<open>side\<close> the top left position \<open>index - side - 1\<close> is negative,
  and for an index from \<open>length - side - 1\<close> on the bottom right position
  \<open>index + side + 1\<close> is beyond the buffer: the read gives \<^verbatim>\<open>undefined\<close> and the
  count is \<^verbatim>\<open>NaN\<close>.  Strictly between, on a buffer without holes, the count is an
  integer from 0 to 8.
\<close>

lemma findNeighbors_outside_low:
  assumes "index \<le> int side"
  shows "findNeighbors side cells index = NaN"
  using assms
  by (simp add: findNeighbors_def Let_def findNeighbors_loop_Num js_get_def)


lemma findNeighbors_inside:
  assumes "int side < index" and "index + int side + 1 < int (length cells)"
    and "None \<notin> set cells"
  shows "\<exists>n\<le>8. findNeighbors side cells index = Num n"
proof -
  have "js_get cells j \<noteq> None" if "0 \<le> j" and "j < int (length cells)" for j
  proof -
    from that have "nat j < length cells" by simp
    then have "cells ! nat j \<in> set cells" by (rule nth_mem)
    with assms(3) have "cells ! nat j \<noteq> None" by metis
    with that show ?thesis by (simp add: js_get_def)
  qed
  then have "findNeighbors side cells index \<noteq> NaN"
    using assms(1,2)
    by (simp add: findNeighbors_def Let_def findNeighbors_loop_Num)
  then show ?thesis
    using findNeighbors_range [of side cells index] by simp
qed

text \<open>
  C1.  The claim: for every buffer and every index in \<open>[0, side\<^sup>2)\<close> the neighbour
  count is an integer from 0 to 8, also in the first and the last row.  The code at the
  top left corner of the all-dead 100 by 100 board: \<^verbatim>\<open>cells[-100]\<close> is
  \<^verbatim>\<open>undefined\<close>, \<^verbatim>\<open>Number(undefined)\<close> is \<^verbatim>\<open>NaN\<close>, and the function returns
  \<^verbatim>\<open>NaN\<close>.
\<close>

theorem findNeighbors_corner_NaN:
  "findNeighbors CELLS_PER_ROW (createBuffer BUFFER_SIZE False) 0 = NaN"
  by (simp add: findNeighbors_outside_low)

section \<open>A running tick, cell by cell\<close>

text \<open>
  After a running tick, cell \<open>i\<close> of \<open>current\<close> is dead or born by the two rules, and
  otherwise holds what \<open>next[i]\<close> held before the tick.  When \<open>next\<close> equalled
  \<open>current\<close> before the tick, that is the cell's own old value.
\<close>

lemma tick_running_cell:
  assumes "isRunning s" and "i < length (current s)"
  shows "js_get (current (tick side s)) (int i) =
     (let alive = truthy (js_get (current s) (int i));
          n = findNeighbors side (current s) (int i)
      in if alive \<and> (js_lt n 2 \<or> js_gt n 3) then Some False
         else if \<not> alive \<and> n = Num 3 then Some True
         else js_get (next_pool s) (int i))"
  using assms by (simp add: tick_def Let_def cloneBuffer_def js_get_tick_loop)

lemma tick_synced_cell:
  assumes "isRunning s" and "next_pool s = current s" and "i < length (current s)"
  shows "js_get (current (tick side s)) (int i) =
     (let alive = truthy (js_get (current s) (int i));
          n = findNeighbors side (current s) (int i)
      in if alive \<and> (js_lt n 2 \<or> js_gt n 3) then Some False
         else if \<not> alive \<and> n = Num 3 then Some True
         else js_get (current s) (int i))"
  using tick_running_cell [OF assms(1,3), of side] assms(2) by (auto simp: Let_def)


lemma tick_same_inputs:
  assumes "isRunning s = isRunning s'" and "current s = current s'"
    and "next_pool s = next_pool s'"
  shows "current (tick side s) = current (tick side s')"
  using assms by (simp add: tick_def Let_def)


text \<open>
  No tick assigns one of the first \<open>side + 1\<close> slots of \<open>next\<close>: their count is
  \<^verbatim>\<open>NaN\<close> whatever \<open>current\<close> holds.
\<close>

lemma tick_top_band_next:
  assumes "i \<le> side"
  shows "js_get (next_pool (tick side s)) (int i) = js_get (next_pool s) (int i)"
proof -
  have "findNeighbors side (current s) (int i) = NaN"
    using assms by (simp add: findNeighbors_outside_low)
  then show ?thesis
    by (simp add: tick_def Let_def cloneBuffer_def js_get_tick_loop)
qed

section \<open>The block drawn on the initial board\<close>

lemma current_painted_block:
  "current painted_block =
     js_set (js_set (js_set (js_set (createBuffer 10000 False) 5050 True) 5051 True) 5151 True)
       5150 True"
  by (simp add: painted_block_def toggle_def draw_def onmousedown_def onmousemove_def
      onmouseup_def Let_def state0_def BUFFER_SIZE_def CELLS_PER_ROW_def)

lemma next_painted_block: "next_pool painted_block = createBuffer 10000 False"
  by (simp add: painted_block_def toggle_def draw_def onmousedown_def onmousemove_def
      onmouseup_def Let_def state0_def BUFFER_SIZE_def CELLS_PER_ROW_def)

lemma running_painted_block: "isRunning painted_block"
  by (simp add: painted_block_def toggle_def draw_def onmousedown_def onmousemove_def
      onmouseup_def Let_def state0_def)

lemma length_current_painted_block: "length (current painted_block) = 10000"
  by (simp add: current_painted_block length_js_set createBuffer_def)

lemma painted_block_board:
  "current painted_block =
     (createBuffer BUFFER_SIZE False)
       [5050 := Some True, 5051 := Some True, 5151 := Some True, 5150 := Some True]"
  by (simp add: current_painted_block js_set_def createBuffer_def BUFFER_SIZE_def
      CELLS_PER_ROW_def)

lemma block_cells_alive:
  "map (js_get (current painted_block)) [5050, 5051, 5150, 5151] =
     [Some True, Some True, Some True, Some True]"
  by (simp add: current_painted_block js_get_js_set js_get_createBuffer)

lemma block_cells_count:
  "map (findNeighbors CELLS_PER_ROW (current painted_block)) [5050, 5051, 5150, 5151] =
     [Num 3, Num 3, Num 3, Num 3]"
  by (simp add: current_painted_block findNeighbors_def Let_def CELLS_PER_ROW_def
      js_get_js_set js_get_createBuffer)

text \<open>
  C3.  The claim: a board holding exactly a 2 by 2 block away from the edges is
  unchanged by one transition.  The code on the block drawn on the initial board: the
  four cells are alive, each has three live neighbours, so no branch assigns them and
  \<open>next\<close> keeps the \<open>false\<close> it held; after the tick all four are dead.
\<close>

theorem painted_block_dies:
  "current painted_block =
     (createBuffer BUFFER_SIZE False)
       [5050 := Some True, 5051 := Some True, 5151 := Some True, 5150 := Some True] \<and>
   next_pool painted_block = createBuffer BUFFER_SIZE False \<and>
   isRunning painted_block \<and>
   map (js_get (current painted_block)) [5050, 5051, 5150, 5151] =
     [Some True, Some True, Some True, Some True] \<and>
   map (findNeighbors CELLS_PER_ROW (current painted_block)) [5050, 5051, 5150, 5151] =
     [Num 3, Num 3, Num 3, Num 3] \<and>
   map (js_get (current (tick CELLS_PER_ROW painted_block))) [5050, 5051, 5150, 5151] =
     [Some False, Some False, Some False, Some False]"
proof -
  have "js_get (current (tick CELLS_PER_ROW painted_block)) (int i) = Some False"
    if "i \<in> {5050, 5051, 5150, 5151}" for i
  proof -
    from that have len: "i < length (current painted_block)"
      by (auto simp: length_current_painted_block)
    from that have alive: "js_get (current painted_block) (int i) = Some True"
      using block_cells_alive by auto
    from that have cnt: "findNeighbors CELLS_PER_ROW (current painted_block) (int i) = Num 3"
      using block_cells_count by auto
    from that have nxt: "js_get (next_pool painted_block) (int i) = Some False"
      by (auto simp: next_painted_block js_get_createBuffer)
    show ?thesis
      by (simp add: tick_running_cell [OF running_painted_block len] alive cnt nxt)
  qed
  from this [of 5050] this [of 5051] this [of 5150] this [of 5151]
  show ?thesis
    using block_cells_alive block_cells_count painted_block_board next_painted_block
      running_painted_block
    by (simp add: BUFFER_SIZE_def CELLS_PER_ROW_def)
qed

text \<open>
  C5.  The claim: two ticks from equal \<open>current\<close> buffers commit equal states,
  whatever \<open>next\<close> held.  The code on two running states with the same \<open>current\<close>,
  the block, one with the all-dead \<open>next\<close> and one with \<open>next\<close> equal to \<open>current\<close>:
  cell 5050 is dead after the tick of the first and alive after the tick of the second.
\<close>

theorem stale_next_decides:
  "isRunning painted_block \<and> isRunning synced_block \<and>
   current synced_block = current painted_block \<and>
   next_pool painted_block = createBuffer BUFFER_SIZE False \<and>
   next_pool synced_block = current synced_block \<and>
   js_get (current (tick CELLS_PER_ROW painted_block)) 5050 = Some False \<and>
   js_get (current (tick CELLS_PER_ROW synced_block)) 5050 = Some True"
proof -
  have run: "isRunning synced_block"
    by (simp add: synced_block_def running_painted_block)
  have cur: "current synced_block = current painted_block"
    by (simp add: synced_block_def)
  have nxt: "next_pool synced_block = current synced_block"
    by (simp add: synced_block_def)
  have len: "5050 < length (current painted_block)"
    by (simp add: length_current_painted_block)
  have alive: "js_get (current painted_block) 5050 = Some True"
    using block_cells_alive by simp
  have cnt: "findNeighbors CELLS_PER_ROW (current painted_block) 5050 = Num 3"
    using block_cells_count by simp
  have "js_get (current (tick CELLS_PER_ROW painted_block)) 5050 = Some False"
    using tick_running_cell [OF running_painted_block len, of CELLS_PER_ROW]
    by (simp add: alive cnt next_painted_block js_get_createBuffer)
  moreover have "js_get (current (tick CELLS_PER_ROW synced_block)) 5050 = Some True"
    using tick_synced_cell [OF run nxt, of 5050 CELLS_PER_ROW] len
    by (simp add: cur alive cnt)
  ultimately show ?thesis
    using run cur nxt running_painted_block next_painted_block
    by (simp add: BUFFER_SIZE_def CELLS_PER_ROW_def)
qed

lemma block_differs_from_next: "current painted_block \<noteq> next_pool painted_block"
proof
  assume eq: "current painted_block = next_pool painted_block"
  have "js_get (current painted_block) 5050 = Some True"
    using block_cells_alive by simp
  moreover have "js_get (next_pool painted_block) 5050 = Some False"
    by (simp add: next_painted_block js_get_createBuffer)
  ultimately show False using eq by simp
qed

lemma paused_block_fields:
  "\<not> isRunning paused_block" "current paused_block = current painted_block"
  "next_pool paused_block = next_pool painted_block"
  "previous paused_block = next_pool painted_block"
  by (simp_all add: paused_block_def toggle_def running_painted_block)
    (simp add: painted_block_def toggle_def draw_def onmousedown_def onmousemove_def
      onmouseup_def Let_def state0_def)

section \<open>Ticks while idle\<close>

lemma tick_idle: "\<not> isRunning s \<Longrightarrow> tick side s = s\<lparr>previous := cloneBuffer (current s)\<rparr>"
  by (simp add: tick_def Let_def)

lemma tick_idle_funpow:
  "\<not> isRunning s \<Longrightarrow>
   current ((tick side ^^ n) s) = current s \<and>
   next_pool ((tick side ^^ n) s) = next_pool s \<and>
   \<not> isRunning ((tick side ^^ n) s)"
  by (induction n) (simp_all add: tick_idle)

text \<open>
  C6.  When the run flag is false, a tick only takes the snapshot: the state after it is
  the state before with \<open>previous\<close> replaced by a copy of \<open>current\<close>, so \<open>previous\<close>
  then equals \<open>current\<close> and the transition loop has not run; and after any number
  \<open>n\<close> of consecutive idle ticks \<open>current\<close> and \<open>next\<close> are what they were and the
  state is still idle.
\<close>

theorem tick_idle_frame:
  assumes "\<not> isRunning s"
  shows "tick side s = s\<lparr>previous := cloneBuffer (current s)\<rparr> \<and>
         previous (tick side s) = current s \<and>
         current ((tick side ^^ n) s) = current s \<and>
         next_pool ((tick side ^^ n) s) = next_pool s \<and>
         \<not> isRunning ((tick side ^^ n) s)"
  using tick_idle [OF assms, of side] tick_idle_funpow [OF assms, where side = side and n = n]
  by (simp add: cloneBuffer_def)

text \<open>
  An instance on the paused block board, where \<open>previous\<close> and \<open>next\<close> both differ
  from \<open>current\<close> before the tick.
\<close>

theorem tick_idle_frame_witness:
  "\<not> isRunning paused_block \<and>
   previous paused_block \<noteq> current paused_block \<and>
   next_pool paused_block \<noteq> current paused_block \<and>
   tick CELLS_PER_ROW paused_block =
     paused_block\<lparr>previous := cloneBuffer (current paused_block)\<rparr> \<and>
   previous (tick CELLS_PER_ROW paused_block) = current paused_block \<and>
   current ((tick CELLS_PER_ROW ^^ 3) paused_block) = current paused_block \<and>
   next_pool ((tick CELLS_PER_ROW ^^ 3) paused_block) = next_pool paused_block \<and>
   \<not> isRunning ((tick CELLS_PER_ROW ^^ 3) paused_block)"
proof -
  have h: "\<not> isRunning paused_block" by (rule paused_block_fields)
  have d: "previous paused_block \<noteq> current paused_block"
    "next_pool paused_block \<noteq> current paused_block"
    using block_differs_from_next by (simp_all add: paused_block_fields)
  show ?thesis
    using h d tick_idle_frame [OF h, of CELLS_PER_ROW 3] by blast
qed

section \<open>The commit at the end of a running tick\<close>

text \<open>
  C10.  After a tick in the running state, \<open>current\<close> equals \<open>next\<close>, which is the
  result of the transition loop on the old \<open>current\<close> and the old \<open>next\<close>: the commit
  copies \<open>next\<close> whole, so a slot the loop did not assign reaches \<open>current\<close> with the
  value \<open>next\<close> held.  Every running tick establishes the equality again.
\<close>

theorem tick_running_commit:
  assumes "isRunning s"
  shows "current (tick side s) = next_pool (tick side s) \<and>
         next_pool (tick side s) = tick_loop side (current s) 0 (next_pool s)"
  using assms by (simp add: tick_def Let_def cloneBuffer_def)

text \<open>
  An instance on the block drawn on the initial board, where \<open>current\<close> differs from
  \<open>next\<close> before the tick: cell 5050 is alive in \<open>current\<close> and dead in \<open>next\<close>, the
  loop does not assign it, and the commit carries the value of \<open>next\<close> into
  \<open>current\<close>.
\<close>

theorem tick_running_commit_witness:
  "isRunning painted_block \<and>
   current painted_block \<noteq> next_pool painted_block \<and>
   js_get (current painted_block) 5050 = Some True \<and>
   js_get (next_pool painted_block) 5050 = Some False \<and>
   js_get (current (tick CELLS_PER_ROW painted_block)) 5050 = Some False \<and>
   current (tick CELLS_PER_ROW painted_block) = next_pool (tick CELLS_PER_ROW painted_block) \<and>
   next_pool (tick CELLS_PER_ROW painted_block) =
     tick_loop CELLS_PER_ROW (current painted_block) 0 (next_pool painted_block)"
proof -
  have alive: "js_get (current painted_block) 5050 = Some True"
    using block_cells_alive by simp
  have cnt: "findNeighbors CELLS_PER_ROW (current painted_block) 5050 = Num 3"
    using block_cells_count by simp
  have old: "js_get (next_pool painted_block) 5050 = Some False"
    by (simp add: next_painted_block js_get_createBuffer)
  have len: "5050 < length (current painted_block)"
    by (simp add: length_current_painted_block)
  have new: "js_get (current (tick CELLS_PER_ROW painted_block)) 5050 = Some False"
    using tick_running_cell [OF running_painted_block len, of CELLS_PER_ROW]
    by (simp add: alive cnt old)
  show ?thesis
    using tick_running_commit [OF running_painted_block, of CELLS_PER_ROW]
      running_painted_block block_differs_from_next alive old new
    by blast
qed

section \<open>An invariant of the reachable states\<close>


















end
